theory Spec2Isabelle
  imports Main "HOL-Library.AList"
begin

section \<open>Data model\<close>

text \<open>
  The two source files are \<^verbatim>\<open>packages/scrape/src/managers/Bandwidth.ts\<close> (the
  \<^verbatim>\<open>BandwidthManager\<close>, the aggregator) and the CDP bandwidth tracker
  (\<^verbatim>\<open>getOrCreateBandwidthTracker\<close>), together with the metric types of
  \<^verbatim>\<open>@anycrawl/libs\<close>.

  Conventions of the embedding:
  \<^item> a JavaScript \<^verbatim>\<open>number\<close> that counts bytes, requests or hops is an \<^typ>\<open>int\<close>
    (a \<^typ>\<open>nat\<close> for the hop index, which starts at 0 and is only incremented);
    the rounding of doubles beyond \<open>2 ^ 53\<close> and \<^verbatim>\<open>NaN\<close> are not modelled;
  \<^item> a value that may be \<^verbatim>\<open>undefined\<close> or \<^verbatim>\<open>null\<close> is an \<^typ>\<open>'a option\<close>;
  \<^item> a string is the list of its UTF-8 bytes, so \<^verbatim>\<open>Buffer.byteLength(s, "utf8")\<close> is
    \<^term>\<open>length s\<close>;
  \<^item> \<^verbatim>\<open>Date.now()\<close> is a parameter \<open>now\<close> of the function that reads it;
  \<^item> a thrown value is an \<open>error\<close>.
\<close>

datatype error = Error string

datatype RequestEngine = playwright | puppeteer | cheerio

record RequestMetricBase =
  id_metric :: string
  jobId :: "string option"
  engine :: RequestEngine
  url :: string
  method_metric :: string
  status :: "int option"
  startTime :: int
  endTime :: "int option"
  failed :: "bool option"
  fromCache :: "bool option"

record RequestTrafficMetric = RequestMetricBase +
  requestBytes :: int
  responseBytes :: int
  totalBytes :: int

text \<open>
  \<^verbatim>\<open>TrafficDelta\<close> has three field names in common with the metric. From here on
  the unqualified names \<open>totalBytes\<close>, \<open>requestBytes\<close>, \<open>responseBytes\<close> are the
  fields of the delta, and the fields of the metric are written qualified,
  \<open>RequestTrafficMetric.totalBytes\<close>.
\<close>

record TrafficDelta =
  totalBytes :: int
  requestBytes :: int
  responseBytes :: int
  requestCount :: int

definition createEmptyDelta :: TrafficDelta where
  "createEmptyDelta =
     \<lparr>totalBytes = 0, requestBytes = 0, responseBytes = 0, requestCount = 0\<rparr>"

text \<open>
  JavaScript truthiness of a value of type \<^verbatim>\<open>string | null | undefined\<close>: the test
  \<^verbatim>\<open>!x\<close> succeeds on \<^verbatim>\<open>null\<close>, \<^verbatim>\<open>undefined\<close> and the empty string.
\<close>

definition truthy :: "string option \<Rightarrow> bool" where
  "truthy x = (case x of None \<Rightarrow> False | Some s \<Rightarrow> s \<noteq> [])"

section \<open>The aggregator: BandwidthManager\<close>

text \<open>
  A JavaScript \<^verbatim>\<open>Map\<close> iterates in insertion order, and \<^verbatim>\<open>flushAll\<close> iterates
  \<^verbatim>\<open>pendingByJobId.entries()\<close>, so the pending map is an association list:
  \<^verbatim>\<open>get\<close> is \<^const>\<open>map_of\<close>, \<^verbatim>\<open>set\<close> is \<^const>\<open>AList.update\<close> (an existing key
  keeps its place, a new key goes to the end), \<^verbatim>\<open>delete\<close> is \<^const>\<open>AList.delete\<close>,
  \<^verbatim>\<open>clear\<close> leaves \<open>[]\<close> and \<^verbatim>\<open>size === 0\<close> is \<open>= []\<close>.
  The deltas are mutable objects in the source. An object enters the map only as
  the \<^verbatim>\<open>current\<close> of \<^verbatim>\<open>recordRequest\<close> or of the \<^verbatim>\<open>catch\<close> block of \<^verbatim>\<open>persist\<close>,
  which is either the object already stored under that key or a fresh one, so a
  delta that a flush took out of the map is never aliased by the map again and
  value semantics is exact.
\<close>

type_synonym pending = "(string \<times> TrafficDelta) list"

record BandwidthManager =
  pendingByJobId :: pending
  flushRunning :: bool

definition newBandwidthManager :: BandwidthManager where
  "newBandwidthManager = \<lparr>pendingByJobId = [], flushRunning = False\<rparr>"

definition recordRequest :: "RequestTrafficMetric \<Rightarrow> BandwidthManager \<Rightarrow> BandwidthManager" where
  "recordRequest metric this =
     (if \<not> truthy (jobId metric) \<or> RequestTrafficMetric.totalBytes metric \<le> 0 then this
      else
        let j = the (jobId metric);
            current = (case map_of (pendingByJobId this) j of
                         None \<Rightarrow> createEmptyDelta | Some d \<Rightarrow> d);
            current = current\<lparr>totalBytes :=
                        totalBytes current + RequestTrafficMetric.totalBytes metric\<rparr>;
            current = current\<lparr>requestBytes :=
                        requestBytes current + RequestTrafficMetric.requestBytes metric\<rparr>;
            current = current\<lparr>responseBytes :=
                        responseBytes current + RequestTrafficMetric.responseBytes metric\<rparr>;
            current = current\<lparr>requestCount := requestCount current + 1\<rparr>
        in this\<lparr>pendingByJobId := AList.update j current (pendingByJobId this)\<rparr>)"

text \<open>A sequence of \<^verbatim>\<open>recordRequest\<close> calls, in the order of the list.\<close>

fun recordAll :: "RequestTrafficMetric list \<Rightarrow> BandwidthManager \<Rightarrow> BandwidthManager" where
  "recordAll [] this = this"
| "recordAll (metric # rest) this = recordAll rest (recordRequest metric this)"


definition sumMetrics :: "RequestTrafficMetric list \<Rightarrow> TrafficDelta" where
  "sumMetrics ms =
     \<lparr>totalBytes = sum_list (map RequestTrafficMetric.totalBytes ms),
      requestBytes = sum_list (map RequestTrafficMetric.requestBytes ms),
      responseBytes = sum_list (map RequestTrafficMetric.responseBytes ms),
      requestCount = int (length ms)\<rparr>"

definition addDelta :: "TrafficDelta \<Rightarrow> TrafficDelta \<Rightarrow> TrafficDelta" where
  "addDelta a b =
     \<lparr>totalBytes = totalBytes a + totalBytes b,
      requestBytes = requestBytes a + requestBytes b,
      responseBytes = responseBytes a + responseBytes b,
      requestCount = requestCount a + requestCount b\<rparr>"

subsection \<open>Flushing, one call at a time\<close>

text \<open>
  The persistence collaborator \<^verbatim>\<open>addJobTraffic\<close> is imported from \<^verbatim>\<open>@anycrawl/db\<close>; it
  is a parameter. Given the job, the delta and
  the state of the store it returns the new state of the store and either
  \<open>None\<close> (the promise resolves) or \<open>Some error\<close> (it throws, or the promise
  rejects; both reach the same \<^verbatim>\<open>catch\<close>). No behaviour is excluded: a failing call
  may or may not have changed the store.

  A function of this subsection returns the thrown value, if any, together with
  the state it leaves behind. Each asynchronous function runs here without
  another callback of the manager in between; the interleaved runs are the
  subject of the next subsection. The thrown value is taken to be one that the
  template literal of the log message can convert to a string, as an \<^verbatim>\<open>Error\<close>
  object is, and \<^verbatim>\<open>log.debug\<close> is taken not to throw.
\<close>

type_synonym 'db addJobTraffic = "string \<Rightarrow> TrafficDelta \<Rightarrow> 'db \<Rightarrow> error option \<times> 'db"

text \<open>The \<^verbatim>\<open>catch\<close> block of \<^verbatim>\<open>persist\<close>: the delta goes back into the pending map.\<close>

definition persist_catch :: "string \<Rightarrow> TrafficDelta \<Rightarrow> BandwidthManager \<Rightarrow> BandwidthManager" where
  "persist_catch j delta this =
     (let current = (case map_of (pendingByJobId this) j of
                       None \<Rightarrow> createEmptyDelta | Some d \<Rightarrow> d);
          current = current\<lparr>totalBytes := totalBytes current + totalBytes delta\<rparr>;
          current = current\<lparr>requestBytes := requestBytes current + requestBytes delta\<rparr>;
          current = current\<lparr>responseBytes := responseBytes current + responseBytes delta\<rparr>;
          current = current\<lparr>requestCount := requestCount current + requestCount delta\<rparr>
      in this\<lparr>pendingByJobId := AList.update j current (pendingByJobId this)\<rparr>)"

definition persist ::
  "'db addJobTraffic \<Rightarrow> string \<Rightarrow> TrafficDelta \<Rightarrow> BandwidthManager \<times> 'db
     \<Rightarrow> error option \<times> BandwidthManager \<times> 'db" where
  "persist addJobTraffic j delta = (\<lambda>(this, db).
     if totalBytes delta \<le> 0 then (None, this, db)
     else
       case addJobTraffic j
              \<lparr>totalBytes = totalBytes delta, requestBytes = requestBytes delta,
               responseBytes = responseBytes delta, requestCount = requestCount delta\<rparr> db of
         (None, db') \<Rightarrow> (None, this, db')
       | (Some err, db') \<Rightarrow> (None, persist_catch j delta this, db'))"

definition flushJob ::
  "'db addJobTraffic \<Rightarrow> string \<Rightarrow> BandwidthManager \<times> 'db \<Rightarrow> error option \<times> BandwidthManager \<times> 'db" where
  "flushJob addJobTraffic j = (\<lambda>(this, db).
     case map_of (pendingByJobId this) j of
       None \<Rightarrow> (None, this, db)
     | Some delta \<Rightarrow>
         persist addJobTraffic j delta
           (this\<lparr>pendingByJobId := AList.delete j (pendingByJobId this)\<rparr>, db))"

text \<open>
  \<^verbatim>\<open>Promise.all(pending.map(...))\<close>: every \<^verbatim>\<open>persist\<close> is started whatever the
  others do, and the first rejection, if there is one, is the rejection of the
  whole.
\<close>

fun persistEach ::
  "'db addJobTraffic \<Rightarrow> pending \<Rightarrow> BandwidthManager \<times> 'db \<Rightarrow> error option \<times> BandwidthManager \<times> 'db" where
  "persistEach addJobTraffic [] (this, db) = (None, this, db)"
| "persistEach addJobTraffic ((j, delta) # rest) (this, db) =
     (case persist addJobTraffic j delta (this, db) of
        (err, this', db') \<Rightarrow>
          (case persistEach addJobTraffic rest (this', db') of
             (errs, this'', db'') \<Rightarrow>
               (case err of Some e \<Rightarrow> Some e | None \<Rightarrow> errs, this'', db'')))"

definition flushAll ::
  "'db addJobTraffic \<Rightarrow> BandwidthManager \<times> 'db \<Rightarrow> error option \<times> BandwidthManager \<times> 'db" where
  "flushAll addJobTraffic = (\<lambda>(this, db).
     if flushRunning this then (None, this, db)
     else if pendingByJobId this = [] then (None, this, db)
     else
       let this = this\<lparr>flushRunning := True\<rparr>;
           pending = pendingByJobId this;
           this = this\<lparr>pendingByJobId := []\<rparr>
       in case persistEach addJobTraffic pending (this, db) of
            (err, this', db') \<Rightarrow> (err, this'\<lparr>flushRunning := False\<rparr>, db'))"

subsection \<open>Flushing, interleaved\<close>

text \<open>
  JavaScript runs one callback at a time and an asynchronous function gives up
  control only at an \<^verbatim>\<open>await\<close>. \<^verbatim>\<open>persist\<close> has one, on \<^verbatim>\<open>addJobTraffic\<close>;
  \<^verbatim>\<open>flushJob\<close> awaits that \<^verbatim>\<open>persist\<close>, and \<^verbatim>\<open>flushAll\<close> awaits the
  \<^verbatim>\<open>Promise.all\<close> of the calls it started. So a run of the manager is a sequence of
  atomic actions on
  \<^item> the manager itself,
  \<^item> the calls of \<^verbatim>\<open>addJobTraffic\<close> in flight, each with the function that awaits it,
  \<^item> the writes the collaborator has accepted, in order (a call that fails writes
    nothing: the collaborator ``either durably persists the increment or fails'').

  The actions are: a \<^verbatim>\<open>recordRequest\<close> call; the synchronous part of a \<^verbatim>\<open>flushJob\<close>
  or \<^verbatim>\<open>flushAll\<close> call, up to its \<^verbatim>\<open>await\<close> (the timer calls \<^verbatim>\<open>flushAll\<close> too);
  the success of a call in flight; its failure, which runs the \<^verbatim>\<open>catch\<close> block;
  and the \<^verbatim>\<open>finally\<close> block of \<^verbatim>\<open>flushAll\<close>, once every call that \<^verbatim>\<open>flushAll\<close>
  started has settled. An action that is not enabled gives \<open>None\<close>.
\<close>

datatype caller = ByFlushJob | ByFlushAll

type_synonym call = "caller \<times> string \<times> TrafficDelta"

record system =
  manager :: BandwidthManager
  inflight :: "call list"
  persisted :: "(string \<times> TrafficDelta) list"

datatype action =
    RecordRequest RequestTrafficMetric
  | FlushJob string
  | FlushAll
  | Resolve nat
  | Reject nat error
  | FlushAllDone


definition settle :: "nat \<Rightarrow> call list \<Rightarrow> call list" where
  "settle i calls = take i calls @ drop (Suc i) calls"

text \<open>The calls that \<^verbatim>\<open>persist\<close> starts for a list of entries: none for a total \<open>\<le> 0\<close>.\<close>

definition started :: "caller \<Rightarrow> pending \<Rightarrow> call list" where
  "started c entries =
     map (\<lambda>(j, delta). (c, j, delta)) (filter (\<lambda>(j, delta). \<not> totalBytes delta \<le> 0) entries)"

fun step :: "action \<Rightarrow> system \<Rightarrow> system option" where
  "step (RecordRequest metric) s = Some (s\<lparr>manager := recordRequest metric (manager s)\<rparr>)"
| "step (FlushJob j) s =
     (case map_of (pendingByJobId (manager s)) j of
        None \<Rightarrow> Some s
      | Some delta \<Rightarrow>
          Some (s\<lparr>manager := (manager s)\<lparr>pendingByJobId :=
                                AList.delete j (pendingByJobId (manager s))\<rparr>,
                  inflight := inflight s @ started ByFlushJob [(j, delta)]\<rparr>))"
| "step FlushAll s =
     (if flushRunning (manager s) then Some s
      else if pendingByJobId (manager s) = [] then Some s
      else Some (s\<lparr>manager := (manager s)\<lparr>flushRunning := True, pendingByJobId := []\<rparr>,
                   inflight := inflight s @ started ByFlushAll (pendingByJobId (manager s))\<rparr>))"
| "step (Resolve i) s =
     (if i < length (inflight s)
      then Some (s\<lparr>inflight := settle i (inflight s),
                   persisted := persisted s @ [snd (inflight s ! i)]\<rparr>)
      else None)"
| "step (Reject i err) s =
     (if i < length (inflight s)
      then Some (s\<lparr>inflight := settle i (inflight s),
                   manager := persist_catch (fst (snd (inflight s ! i)))
                                (snd (snd (inflight s ! i))) (manager s)\<rparr>)
      else None)"
| "step FlushAllDone s =
     (if flushRunning (manager s) \<and> ByFlushAll \<notin> fst ` set (inflight s)
      then Some (s\<lparr>manager := (manager s)\<lparr>flushRunning := False\<rparr>\<rparr>)
      else None)"

fun run :: "action list \<Rightarrow> system \<Rightarrow> system option" where
  "run [] s = Some s"
| "run (a # as) s = (case step a s of None \<Rightarrow> None | Some s' \<Rightarrow> run as s')"

text \<open>The metrics that a run hands to \<^verbatim>\<open>recordRequest\<close>, in order.\<close>

fun recorded :: "action list \<Rightarrow> RequestTrafficMetric list" where
  "recorded [] = []"
| "recorded (RecordRequest metric # as) = metric # recorded as"
| "recorded (a # as) = recorded as"

definition sumDeltas :: "TrafficDelta list \<Rightarrow> TrafficDelta" where
  "sumDeltas ds =
     \<lparr>totalBytes = sum_list (map totalBytes ds),
      requestBytes = sum_list (map requestBytes ds),
      responseBytes = sum_list (map responseBytes ds),
      requestCount = sum_list (map requestCount ds)\<rparr>"





text \<open>
  The states the manager can be in: the keys of the pending map are distinct (it
  is a \<^verbatim>\<open>Map\<close>), and every delta pending or in flight has a positive total.
\<close>

definition positive :: "system \<Rightarrow> bool" where
  "positive s \<longleftrightarrow>
     distinct (map fst (pendingByJobId (manager s)))
     \<and> list_all (\<lambda>e. 0 < totalBytes (snd e)) (pendingByJobId (manager s))
     \<and> list_all (\<lambda>c. 0 < totalBytes (snd (snd c))) (inflight s)"

section \<open>The request lifecycle tracker\<close>

text \<open>
  The closure that \<^verbatim>\<open>getOrCreateBandwidthTracker\<close> creates for one page: its
  variables are the fields of the record. The three maps are never iterated, so
  they are functions to \<^typ>\<open>'a option\<close>. A metric object is reachable only through
  \<^verbatim>\<open>metrics\<close> (\<^verbatim>\<open>recordRequest\<close> reads it and keeps no reference), so the map
  holds values.
\<close>

record tracker =
  sessionId :: string
  trackerEngine :: RequestEngine
  currentJobId :: "string option"
  activeRequestId :: "string \<rightharpoonup> string"
  hopIndexByRequestId :: "string \<rightharpoonup> nat"
  metrics :: "string \<rightharpoonup> RequestTrafficMetric"

definition newTracker :: "string \<Rightarrow> RequestEngine \<Rightarrow> tracker" where
  "newTracker sid eng =
     \<lparr>sessionId = sid, trackerEngine = eng, currentJobId = None,
      activeRequestId = Map.empty, hopIndexByRequestId = Map.empty, metrics = Map.empty\<rparr>"

text \<open>
  The parameters of the protocol events, with the fields the handlers read.
  \<^verbatim>\<open>String(params.requestId)\<close> is the \<open>string\<close> of the event; a header value is the
  string \<^verbatim>\<open>String(v)\<close>; \<open>request_postData\<close> is present when
  \<^verbatim>\<open>typeof params.request.postData === "string"\<close>; \<open>redirectResponse\<close> says whether
  \<^verbatim>\<open>params.redirectResponse\<close> is there.
\<close>

record CdpRequest =
  request_method :: "string option"
  request_url :: "string option"
  request_headers :: "(string \<times> string) list option"
  request_postData :: "string option"

record CdpResponse =
  response_status :: "int option"
  response_url :: "string option"
  response_fromDiskCache :: bool
  response_fromServiceWorker :: bool

datatype event =
    RequestWillBeSent string bool "CdpRequest option"
  | RequestWillBeSentExtraInfo string "string option"
  | ResponseReceived string "CdpResponse option"
  | DataReceived string "int option"
  | LoadingFinished string "int option"
  | LoadingFailed string

text \<open>
  The decimal digits of a number, as the template literal writes \<^verbatim>\<open>hopIndex\<close>.
\<close>

fun digits :: "nat \<Rightarrow> string" where
  "digits n =
     (if n < 10 then [''0123456789'' ! n]
      else digits (n div 10) @ [''0123456789'' ! (n mod 10)])"

declare digits.simps [simp del]

definition metricIdOf :: "string \<Rightarrow> string \<Rightarrow> nat \<Rightarrow> string" where
  "metricIdOf sid requestId hopIndex = sid @ '':'' @ requestId @ '':'' @ digits hopIndex"

definition crlf :: string where
  "crlf = [CHR 0x0D, CHR 0x0A]"

text \<open>
  \<^verbatim>\<open>estimateRequestBytes\<close>. Its \<^verbatim>\<open>catch\<close> returns 0 when a conversion to a string
  throws; the values of a protocol message are JSON values, whose conversions do
  not throw, so the strings are taken as converted.
\<close>

definition estimateRequestBytes :: "CdpRequest option \<Rightarrow> int" where
  "estimateRequestBytes request =
     (let methodName = (case Option.bind request request_method of
                      None \<Rightarrow> ''GET'' | Some m \<Rightarrow> m);
          url = (case Option.bind request request_url of None \<Rightarrow> [] | Some u \<Rightarrow> u);
          headers = (case Option.bind request request_headers of None \<Rightarrow> [] | Some h \<Rightarrow> h);
          requestLine = methodName @ '' '' @ url @ '' HTTP/1.1'' @ crlf;
          headerLines = concat (map (\<lambda>(k, v). k @ '': '' @ v @ crlf) headers);
          postData = (case Option.bind request request_postData of
                        None \<Rightarrow> [] | Some p \<Rightarrow> p)
      in int (length (requestLine @ headerLines @ crlf @ postData)))"

definition nextHopIndex :: "string \<Rightarrow> tracker \<Rightarrow> nat \<times> tracker" where
  "nextHopIndex requestId t =
     (let current = (case hopIndexByRequestId t requestId of None \<Rightarrow> 0 | Some n \<Rightarrow> n)
      in (current, t\<lparr>hopIndexByRequestId := (hopIndexByRequestId t)(requestId \<mapsto> current + 1)\<rparr>))"

text \<open>
  \<^verbatim>\<open>finalizeHop\<close>. Its one effect outside the tracker is the call
  \<^verbatim>\<open>bandwidthManager.recordRequest(metric)\<close>: the function returns the metrics it
  hands to the manager (none or one), and \<open>dispatch\<close> below passes them on.
\<close>

definition finalizeHop ::
  "string option \<Rightarrow> bool \<Rightarrow> int \<Rightarrow> tracker \<Rightarrow> tracker \<times> RequestTrafficMetric list" where
  "finalizeHop metricId failedFlag now t =
     (if \<not> truthy metricId then (t, [])
      else
        case metrics t (the metricId) of
          None \<Rightarrow> (t, [])
        | Some metric \<Rightarrow>
            let metric = metric\<lparr>failed := Some failedFlag\<rparr>;
                metric = metric\<lparr>RequestTrafficMetric.totalBytes :=
                           RequestTrafficMetric.requestBytes metric
                           + RequestTrafficMetric.responseBytes metric\<rparr>;
                metric = metric\<lparr>endTime := Some now\<rparr>
            in (t\<lparr>metrics := (metrics t)(the metricId := None)\<rparr>, [metric]))"

text \<open>The handlers registered with \<^verbatim>\<open>client.on\<close>, one equation each.\<close>

fun handle :: "int \<Rightarrow> event \<Rightarrow> tracker \<Rightarrow> tracker \<times> RequestTrafficMetric list" where
  "handle now (RequestWillBeSent requestId redirectResponse request) t =
     (if \<not> truthy (currentJobId t) then (t, [])
      else
        let (hopIndex, t1) = nextHopIndex requestId t;
            metricId = metricIdOf (sessionId t1) requestId hopIndex;
            (t2, out) = (if redirectResponse
                         then finalizeHop (activeRequestId t1 requestId) False now t1
                         else (t1, []));
            metric = \<lparr>id_metric = metricId,
                      jobId = currentJobId t2,
                      engine = trackerEngine t2,
                      url = (case Option.bind request request_url of None \<Rightarrow> [] | Some u \<Rightarrow> u),
                      method_metric = (case Option.bind request request_method of
                                  None \<Rightarrow> ''GET'' | Some m \<Rightarrow> m),
                      status = None,
                      startTime = now,
                      endTime = None,
                      failed = None,
                      fromCache = None,
                      RequestTrafficMetric.requestBytes = estimateRequestBytes request,
                      RequestTrafficMetric.responseBytes = 0,
                      RequestTrafficMetric.totalBytes = 0\<rparr>
        in (t2\<lparr>activeRequestId := (activeRequestId t2)(requestId \<mapsto> metricId),
                metrics := (metrics t2)(metricId \<mapsto> metric)\<rparr>, out))"
| "handle now (RequestWillBeSentExtraInfo requestId headersText) t =
     (let metricId = activeRequestId t requestId in
      if \<not> truthy metricId \<or> \<not> truthy headersText then (t, [])
      else
        case metrics t (the metricId) of
          None \<Rightarrow> (t, [])
        | Some metric \<Rightarrow>
            (t\<lparr>metrics := (metrics t)(the metricId \<mapsto>
                  metric\<lparr>RequestTrafficMetric.requestBytes := int (length (the headersText))\<rparr>)\<rparr>,
             []))"
| "handle now (ResponseReceived requestId response) t =
     (let metricId = activeRequestId t requestId in
      case (if truthy metricId then metrics t (the metricId) else None) of
        None \<Rightarrow> (t, [])
      | Some metric \<Rightarrow>
          (t\<lparr>metrics := (metrics t)(the metricId \<mapsto>
                metric\<lparr>status := Option.bind response response_status,
                       url := (case Option.bind response response_url of
                                 None \<Rightarrow> url metric | Some u \<Rightarrow> u),
                       fromCache := Some (case response of
                                            None \<Rightarrow> False
                                          | Some r \<Rightarrow> response_fromDiskCache r
                                                      \<or> response_fromServiceWorker r)\<rparr>)\<rparr>,
           []))"
| "handle now (DataReceived requestId encodedDataLength) t =
     (let metricId = activeRequestId t requestId in
      case (if truthy metricId then metrics t (the metricId) else None) of
        None \<Rightarrow> (t, [])
      | Some metric \<Rightarrow>
          (t\<lparr>metrics := (metrics t)(the metricId \<mapsto>
                metric\<lparr>RequestTrafficMetric.responseBytes :=
                         RequestTrafficMetric.responseBytes metric
                         + (case encodedDataLength of None \<Rightarrow> 0 | Some n \<Rightarrow> n)\<rparr>)\<rparr>,
           []))"
| "handle now (LoadingFinished requestId encodedDataLength) t =
     (let metricId = activeRequestId t requestId;
          t1 = (case (if truthy metricId then metrics t (the metricId) else None) of
                  None \<Rightarrow> t
                | Some metric \<Rightarrow>
                    if RequestTrafficMetric.responseBytes metric = 0
                    then t\<lparr>metrics := (metrics t)(the metricId \<mapsto>
                            metric\<lparr>RequestTrafficMetric.responseBytes :=
                                     (case encodedDataLength of None \<Rightarrow> 0 | Some n \<Rightarrow> n)\<rparr>)\<rparr>
                    else t);
          (t2, out) = finalizeHop metricId False now t1
      in (t2\<lparr>activeRequestId := (activeRequestId t2)(requestId := None)\<rparr>, out))"
| "handle now (LoadingFailed requestId) t =
     (let (t1, out) = finalizeHop (activeRequestId t requestId) True now t
      in (t1\<lparr>activeRequestId := (activeRequestId t1)(requestId := None)\<rparr>, out))"

definition setJobContext :: "string \<Rightarrow> tracker \<Rightarrow> tracker" where
  "setJobContext j t = t\<lparr>currentJobId := Some j\<rparr>"

text \<open>
  A stream of protocol events, each with the clock reading at which its handler
  runs. \<open>handleAll\<close> returns the tracker afterwards and the metrics finalized, in
  order; \<open>dispatch\<close> is one handler call as the program runs it, with the manager
  the metrics go to.
\<close>

fun handleAll :: "(int \<times> event) list \<Rightarrow> tracker \<Rightarrow> tracker \<times> RequestTrafficMetric list" where
  "handleAll [] t = (t, [])"
| "handleAll ((now, ev) # rest) t =
     (let (t1, out1) = handle now ev t;
          (t2, out2) = handleAll rest t1
      in (t2, out1 @ out2))"

definition dispatch ::
  "int \<Rightarrow> event \<Rightarrow> tracker \<times> BandwidthManager \<Rightarrow> tracker \<times> BandwidthManager" where
  "dispatch now ev = (\<lambda>(t, bandwidthManager).
     let (t', out) = handle now ev t in (t', recordAll out bandwidthManager))"

text \<open>
  The events that belong to an exchange under way and end nothing: header
  detail, response, data.
\<close>

fun progress :: "event \<Rightarrow> bool" where
  "progress (RequestWillBeSentExtraInfo requestId headersText) = True"
| "progress (ResponseReceived requestId response) = True"
| "progress (DataReceived requestId encodedDataLength) = True"
| "progress ev = False"

text \<open>
  A redirect chain on one transport id: the initiation of the first hop, then for
  each redirect the events of the hop under way followed by an initiation that
  carries the prior response, then the events of the last hop. Each hop is given
  as the clock and request of its initiation and the events that follow it.
\<close>

type_synonym hop = "int \<times> CdpRequest option \<times> (int \<times> event) list"

fun redirects :: "string \<Rightarrow> hop list \<Rightarrow> (int \<times> event) list" where
  "redirects requestId [] = []"
| "redirects requestId ((now, request, mid) # hops) =
     (now, RequestWillBeSent requestId True request) # mid @ redirects requestId hops"

definition chain :: "string \<Rightarrow> hop \<Rightarrow> hop list \<Rightarrow> int \<Rightarrow> int option \<Rightarrow> (int \<times> event) list" where
  "chain requestId first hops finish encodedDataLength =
     (fst first, RequestWillBeSent requestId False (fst (snd first))) # snd (snd first)
     @ redirects requestId hops
     @ [(finish, LoadingFinished requestId encodedDataLength)]"

section \<open>Attaching a tracker to a page\<close>

text \<open>
  Modelled from the spec: the enumeration \<^verbatim>\<open>ConfigurableEngineType\<close> of
  \<^verbatim>\<open>EngineConfigurator.js\<close> is not among the sources. The spec says that only
  engines with a CDP-style event channel are supported and the others yield no
  tracker; the code names the two supported members, and casts a member to a
  \<^verbatim>\<open>RequestEngine\<close>, which has the three values below.
\<close>

datatype ConfigurableEngineType = CHEERIO | PLAYWRIGHT | PUPPETEER

fun engineOf :: "ConfigurableEngineType \<Rightarrow> RequestEngine" where
  "engineOf CHEERIO = cheerio"
| "engineOf PLAYWRIGHT = playwright"
| "engineOf PUPPETEER = puppeteer"

text \<open>
  \<^verbatim>\<open>attachCdpClient\<close>: \<open>session\<close> is the outcome of the engine's call that opens a
  CDP session on the page (\<open>None\<close>: a client; \<open>Some e\<close>: it throws).
\<close>

definition attachCdpClient :: "error option \<Rightarrow> ConfigurableEngineType \<Rightarrow> error + unit" where
  "attachCdpClient session engineType =
     (if engineType = PLAYWRIGHT then (case session of None \<Rightarrow> Inr () | Some e \<Rightarrow> Inl e)
      else if engineType = PUPPETEER then (case session of None \<Rightarrow> Inr () | Some e \<Rightarrow> Inl e)
      else Inl (Error ''Unsupported engine type for CDP tracker''))"

text \<open>
  \<^verbatim>\<open>getOrCreateBandwidthTracker\<close>. The page is \<open>None\<close> when it is \<^verbatim>\<open>null\<close> or
  \<^verbatim>\<open>undefined\<close>. The table \<^verbatim>\<open>trackers\<close> maps a page to its handle; a handle is the
  closure over the tracker's variables, so the table holds the tracker and the
  handle returned is the page it belongs to. \<open>enable\<close> is the outcome of
  \<^verbatim>\<open>client.send("Network.enable")\<close> and \<open>newSessionId\<close> the result of
  \<^verbatim>\<open>createSessionId()\<close>. The result is the thrown error, or the handle, or \<open>None\<close>
  for \<^verbatim>\<open>null\<close>.
\<close>

definition getOrCreateBandwidthTracker ::
  "error option \<Rightarrow> error option \<Rightarrow> string \<Rightarrow> 'page option \<Rightarrow> ConfigurableEngineType
     \<Rightarrow> ('page \<rightharpoonup> tracker) \<Rightarrow> (error + 'page option) \<times> ('page \<rightharpoonup> tracker)" where
  "getOrCreateBandwidthTracker session enable newSessionId page engineType trackers =
     (if page = None \<or> (engineType \<noteq> PLAYWRIGHT \<and> engineType \<noteq> PUPPETEER)
      then (Inr None, trackers)
      else
        case trackers (the page) of
          Some existing \<Rightarrow> (Inr (Some (the page)), trackers)
        | None \<Rightarrow>
            (case attachCdpClient session engineType of
               Inl e \<Rightarrow> (Inl e, trackers)
             | Inr client \<Rightarrow>
                 (case enable of
                    Some e \<Rightarrow> (Inl e, trackers)
                  | None \<Rightarrow>
                      (Inr (Some (the page)),
                       trackers(the page \<mapsto> newTracker newSessionId (engineOf engineType))))))"

section \<open>Runs of the tracker\<close>

text \<open>
  The hop index that \<^verbatim>\<open>nextHopIndex\<close> hands out next for a transport id, and a
  stream of events dispatched one by one with the manager.
\<close>

definition firstHop :: "string \<Rightarrow> tracker \<Rightarrow> nat" where
  "firstHop requestId t = (case hopIndexByRequestId t requestId of None \<Rightarrow> 0 | Some n \<Rightarrow> n)"

fun dispatchAll :: "(int \<times> event) list \<Rightarrow> tracker \<times> BandwidthManager \<Rightarrow> tracker \<times> BandwidthManager" where
  "dispatchAll [] s = s"
| "dispatchAll ((now, ev) # rest) s = dispatchAll rest (dispatch now ev s)"

text \<open>
  Two notions for the proofs about one transport id. \<open>hopOpen requestId k since t0 t\<close>:
  in \<open>t\<close>, which has the session and job context of \<open>t0\<close>, hop \<open>k\<close> of the
  transport id is the active one, its metric is open and carries the hop's id,
  the job and the start time \<open>since\<close>. \<open>hopDone requestId k since now t0 metric\<close>:
  \<open>metric\<close> is that hop's metric as finalized, not failed, at time \<open>now\<close>.
\<close>

definition hopOpen :: "string \<Rightarrow> nat \<Rightarrow> int \<Rightarrow> tracker \<Rightarrow> tracker \<Rightarrow> bool" where
  "hopOpen requestId k since t0 t \<longleftrightarrow>
     sessionId t = sessionId t0 \<and> currentJobId t = currentJobId t0
     \<and> truthy (currentJobId t)
     \<and> hopIndexByRequestId t requestId = Some (Suc k)
     \<and> activeRequestId t requestId = Some (metricIdOf (sessionId t0) requestId k)
     \<and> (case metrics t (metricIdOf (sessionId t0) requestId k) of
           None \<Rightarrow> False
         | Some metric \<Rightarrow>
             id_metric metric = metricIdOf (sessionId t0) requestId k
             \<and> jobId metric = currentJobId t0 \<and> startTime metric = since)"

definition hopDone :: "string \<Rightarrow> nat \<Rightarrow> int \<Rightarrow> int \<Rightarrow> tracker \<Rightarrow> RequestTrafficMetric \<Rightarrow> bool" where
  "hopDone requestId k since now t0 metric \<longleftrightarrow>
     id_metric metric = metricIdOf (sessionId t0) requestId k
     \<and> jobId metric = currentJobId t0
     \<and> startTime metric = since
     \<and> endTime metric = Some now
     \<and> failed metric = Some False
     \<and> RequestTrafficMetric.totalBytes metric
         = RequestTrafficMetric.requestBytes metric + RequestTrafficMetric.responseBytes metric"

section \<open>Notions for the interleaved runs\<close>



section \<open>Examples\<close>


text \<open>
  Two collaborators whose store is the list of the writes accepted: one accepts
  every write, one fails every call. A manager with one pending delta.
\<close>

definition writes :: "(string \<times> TrafficDelta) list addJobTraffic" where
  "writes j delta db = (None, db @ [(j, delta)])"

definition refuses :: "(string \<times> TrafficDelta) list addJobTraffic" where
  "refuses j delta db = (Some (Error ''unavailable''), db)"


text \<open>
  A tracker of session \<open>s1\<close> with job context \<open>J1\<close>, and the same tracker after the
  initiation of request \<open>r1\<close>.
\<close>

definition readyTracker :: tracker where
  "readyTracker = setJobContext ''J1'' (newTracker ''s1'' playwright)"

definition busyTracker :: tracker where
  "busyTracker = fst (handle 1 (RequestWillBeSent ''r1'' False None) readyTracker)"





section \<open>Aggregation\<close>



lemma addDelta_assoc: "addDelta (addDelta a b) c = addDelta a (addDelta b c)"
  by (simp add: addDelta_def)

lemma addDelta_empty [simp]: "addDelta createEmptyDelta d = d"
  by (simp add: addDelta_def createEmptyDelta_def)

lemma addDelta_empty_right [simp]: "addDelta d createEmptyDelta = d"
  by (simp add: addDelta_def createEmptyDelta_def)

lemma sumMetrics_Nil [simp]: "sumMetrics [] = createEmptyDelta"
  by (simp add: sumMetrics_def createEmptyDelta_def)





section \<open>Persistence failures stay inside the manager\<close>





section \<open>Finalization\<close>

lemma finalizeHop_unknown:
  "\<not> truthy metricId \<or> metrics t (the metricId) = None \<Longrightarrow>
     finalizeHop metricId failedFlag now t = (t, [])"
  by (auto simp: finalizeHop_def)

lemma finalizeHop_closes:
  "truthy metricId \<Longrightarrow> metrics (fst (finalizeHop metricId failedFlag now t)) (the metricId) = None"
  by (simp add: finalizeHop_def Let_def split: option.splits)

lemma finalizeHop_twice:
  "finalizeHop metricId f2 now2 (fst (finalizeHop metricId f1 now1 t))
     = (fst (finalizeHop metricId f1 now1 t), [])"
  by (cases "truthy metricId") (simp_all add: finalizeHop_unknown finalizeHop_closes)

lemma finalizeHop_fields:
  "sessionId (fst (finalizeHop metricId f now t)) = sessionId t"
  "trackerEngine (fst (finalizeHop metricId f now t)) = trackerEngine t"
  "currentJobId (fst (finalizeHop metricId f now t)) = currentJobId t"
  "activeRequestId (fst (finalizeHop metricId f now t)) = activeRequestId t"
  "hopIndexByRequestId (fst (finalizeHop metricId f now t)) = hopIndexByRequestId t"
  by (simp_all add: finalizeHop_def Let_def split: option.splits)

lemma tracker_forget_idem:
  "activeRequestId t requestId = None \<Longrightarrow>
     t\<lparr>activeRequestId := (activeRequestId t)(requestId := None)\<rparr> = t"
  by (simp add: fun_upd_idem)

lemma ended_inactive:
  "activeRequestId (fst (handle now (LoadingFinished requestId n) t)) requestId = None"
  "activeRequestId (fst (handle now (LoadingFailed requestId) t)) requestId = None"
  by (simp_all add: Let_def split: prod.splits)

lemma stray_failed:
  "activeRequestId t requestId = None \<Longrightarrow> handle now (LoadingFailed requestId) t = (t, [])"
  by (simp add: finalizeHop_unknown truthy_def tracker_forget_idem)

lemma stray_finished:
  "activeRequestId t requestId = None \<Longrightarrow> handle now (LoadingFinished requestId n) t = (t, [])"
  by (simp add: finalizeHop_unknown truthy_def tracker_forget_idem)

text \<open>
  C7. Finalization is idempotent. \<^verbatim>\<open>finalizeHop\<close> on an absent id, or on an id with no
  open metric, returns the tracker as it is and hands nothing to the manager; a
  second \<^verbatim>\<open>finalizeHop\<close> on the same id does so whatever the first one did; and a
  loading-failed event after a loading-finished event for the same transport id
  leaves tracker and manager exactly as the loading-finished event left them.
\<close>

theorem C7_finalization_idempotent:
  "(\<not> truthy metricId \<or> metrics t (the metricId) = None
      \<longrightarrow> finalizeHop metricId failedFlag now t = (t, []))
   \<and> finalizeHop metricId f2 now2 (fst (finalizeHop metricId f1 now1 t))
       = (fst (finalizeHop metricId f1 now1 t), [])
   \<and> dispatch now2 (LoadingFailed requestId)
        (dispatch now1 (LoadingFinished requestId n) (t, bandwidthManager))
       = dispatch now1 (LoadingFinished requestId n) (t, bandwidthManager)"
proof (intro conjI impI)
  show "finalizeHop metricId failedFlag now t = (t, [])"
    if "\<not> truthy metricId \<or> metrics t (the metricId) = None"
    using that by (rule finalizeHop_unknown)
  show "finalizeHop metricId f2 now2 (fst (finalizeHop metricId f1 now1 t))
       = (fst (finalizeHop metricId f1 now1 t), [])"
    by (rule finalizeHop_twice)
  obtain t1 out where h: "handle now1 (LoadingFinished requestId n) t = (t1, out)"
    by (cases "handle now1 (LoadingFinished requestId n) t")
  have "activeRequestId t1 requestId = None"
    using ended_inactive(1) [of now1 requestId n t] h by simp
  then have "handle now2 (LoadingFailed requestId) t1 = (t1, [])"
    by (rule stray_failed)
  then show "dispatch now2 (LoadingFailed requestId)
        (dispatch now1 (LoadingFinished requestId n) (t, bandwidthManager))
       = dispatch now1 (LoadingFinished requestId n) (t, bandwidthManager)"
    using h by (simp add: dispatch_def)
qed

theorem C7_finalization_idempotent_witness:
  "finalizeHop None True 9 busyTracker = (busyTracker, [])
   \<and> finalizeHop (Some ''s1:r1:7'') True 9 busyTracker = (busyTracker, [])
   \<and> dispatch 9 (LoadingFailed ''r1'')
        (dispatch 8 (LoadingFinished ''r1'' (Some 500)) (busyTracker, newBandwidthManager))
       = dispatch 8 (LoadingFinished ''r1'' (Some 500)) (busyTracker, newBandwidthManager)"
proof -
  have absent: "\<not> truthy None \<or> metrics busyTracker (the None) = None"
    by (simp add: truthy_def)
  have unknown: "\<not> truthy (Some ''s1:r1:7'') \<or> metrics busyTracker (the (Some ''s1:r1:7'')) = None"
    by (simp add: busyTracker_def readyTracker_def setJobContext_def newTracker_def truthy_def
        nextHopIndex_def metricIdOf_def Let_def digits.simps)
  show ?thesis
    using absent unknown
      C7_finalization_idempotent [of None busyTracker True 9 False 9 False 8 "''r1''"
        "Some 500" newBandwidthManager]
      C7_finalization_idempotent [of "Some ''s1:r1:7''" busyTracker True 9 False 9 False 8
        "''r1''" "Some 500" newBandwidthManager]
    by blast
qed

section \<open>Events before a job context\<close>

lemma fresh_ignores:
  assumes "\<not> truthy (currentJobId t)" and "activeRequestId t = Map.empty"
  shows "handle now ev t = (t, [])"
proof (cases ev)
  case (RequestWillBeSent requestId redirectResponse request)
  then show ?thesis using assms by simp
next
  case (RequestWillBeSentExtraInfo requestId headersText)
  then show ?thesis using assms by (simp add: truthy_def)
next
  case (ResponseReceived requestId response)
  then show ?thesis using assms by (simp add: truthy_def)
next
  case (DataReceived requestId encodedDataLength)
  then show ?thesis using assms by (simp add: truthy_def)
next
  case (LoadingFinished requestId encodedDataLength)
  have "activeRequestId t requestId = None" using assms by simp
  then show ?thesis unfolding LoadingFinished by (rule stray_finished)
next
  case (LoadingFailed requestId)
  have "activeRequestId t requestId = None" using assms by simp
  then show ?thesis unfolding LoadingFailed by (rule stray_failed)
qed

lemma fresh_ignores_all:
  assumes "\<not> truthy (currentJobId t)" and "activeRequestId t = Map.empty"
  shows "handleAll evs t = (t, [])"
proof (induction evs)
  case Nil
  show ?case by simp
next
  case (Cons e evs)
  obtain now ev where "e = (now, ev)" by (cases e)
  then show ?case
    using Cons.IH fresh_ignores [OF assms, of now ev] by simp
qed

lemma no_job_no_new_metric:
  assumes "\<not> truthy (currentJobId t)"
  shows "currentJobId (fst (handle now ev t)) = currentJobId t
       \<and> dom (metrics (fst (handle now ev t))) \<subseteq> dom (metrics t)"
proof (cases ev)
  case (RequestWillBeSent requestId redirectResponse request)
  then show ?thesis using assms by simp
next
  case (RequestWillBeSentExtraInfo requestId headersText)
  then show ?thesis by (auto simp: Let_def split: option.splits)
next
  case (ResponseReceived requestId response)
  then show ?thesis by (auto simp: Let_def split: option.splits if_splits)
next
  case (DataReceived requestId encodedDataLength)
  then show ?thesis by (auto simp: Let_def split: option.splits if_splits)
next
  case (LoadingFinished requestId encodedDataLength)
  then show ?thesis
    by (auto simp: Let_def finalizeHop_def split: option.splits if_splits prod.splits)
next
  case (LoadingFailed requestId)
  then show ?thesis
    by (auto simp: Let_def finalizeHop_def split: option.splits if_splits prod.splits)
qed

lemma no_job_no_new_metric_all:
  "\<not> truthy (currentJobId t) \<Longrightarrow> dom (metrics (fst (handleAll evs t))) \<subseteq> dom (metrics t)"
proof (induction evs arbitrary: t)
  case Nil
  show ?case by simp
next
  case (Cons e evs)
  obtain now ev where e: "e = (now, ev)" by (cases e)
  have 1: "currentJobId (fst (handle now ev t)) = currentJobId t"
    and 2: "dom (metrics (fst (handle now ev t))) \<subseteq> dom (metrics t)"
    using no_job_no_new_metric [OF Cons.prems, of now ev] by simp_all
  have "dom (metrics (fst (handleAll evs (fst (handle now ev t)))))
          \<subseteq> dom (metrics (fst (handle now ev t)))"
    using Cons.IH [of "fst (handle now ev t)"] 1 Cons.prems by simp
  moreover have "fst (handleAll (e # evs) t) = fst (handleAll evs (fst (handle now ev t)))"
    using e by (simp add: Let_def split: prod.splits del: handle.simps)
  ultimately show ?case
    using 2 by (simp only: subset_trans)
qed

text \<open>
  C8. On a tracker that has just been created, so before any \<^verbatim>\<open>setJobContext\<close>
  call, every stream of protocol events finalizes no metric and leaves the
  tracker as it was created: no metric is opened and no event is kept for later.
  The manager receives nothing. And in whatever state a tracker is, as long as
  it has no job context no event opens a metric.
\<close>

theorem C8_no_job_no_metric:
  "handleAll evs (newTracker sid eng) = (newTracker sid eng, [])
   \<and> recordAll (snd (handleAll evs (newTracker sid eng))) bandwidthManager = bandwidthManager
   \<and> (\<not> truthy (currentJobId t) \<longrightarrow>
        dom (metrics (fst (handleAll evs t))) \<subseteq> dom (metrics t))"
proof -
  have "handleAll evs (newTracker sid eng) = (newTracker sid eng, [])"
    by (rule fresh_ignores_all) (simp_all add: newTracker_def truthy_def)
  then show ?thesis
    using no_job_no_new_metric_all [of t evs] by simp
qed

theorem C8_no_job_no_metric_witness:
  "handleAll [(1, RequestWillBeSent ''r1'' False None), (2, DataReceived ''r1'' (Some 500)),
              (3, LoadingFinished ''r1'' None), (4, LoadingFailed ''r2'')]
     (newTracker ''s1'' playwright) = (newTracker ''s1'' playwright, [])
   \<and> \<not> truthy (currentJobId (setJobContext [] busyTracker))
   \<and> dom (metrics (fst (handleAll
          [(1, RequestWillBeSent ''r1'' False None), (2, DataReceived ''r1'' (Some 500)),
           (3, LoadingFinished ''r1'' None), (4, LoadingFailed ''r2'')]
          (setJobContext [] busyTracker))))
       \<subseteq> dom (metrics (setJobContext [] busyTracker))"
proof -
  have "\<not> truthy (currentJobId (setJobContext [] busyTracker))"
    by (simp add: setJobContext_def truthy_def)
  then show ?thesis
    using C8_no_job_no_metric
      [of "[(1, RequestWillBeSent ''r1'' False None), (2, DataReceived ''r1'' (Some 500)),
            (3, LoadingFinished ''r1'' None), (4, LoadingFailed ''r2'')]" "''s1''" playwright
          newBandwidthManager "setJobContext [] busyTracker"]
    by blast
qed

section \<open>Attachment\<close>

text \<open>
  C10. With an absent page \<^verbatim>\<open>getOrCreateBandwidthTracker\<close> returns \<^verbatim>\<open>null\<close>, without an
  error and without touching the table of trackers, whatever the engine type;
  and \<^verbatim>\<open>null\<close> is returned exactly when the page is absent or the engine is neither
  of the two supported ones, so only a present page with a supported engine goes
  past the guard.
\<close>

theorem C10_absent_page_no_tracker:
  "getOrCreateBandwidthTracker session enable newSessionId None engineType trackers
     = (Inr None, trackers)
   \<and> (fst (getOrCreateBandwidthTracker session enable newSessionId page engineType trackers)
        = Inr None
      \<longleftrightarrow> page = None \<or> (engineType \<noteq> PLAYWRIGHT \<and> engineType \<noteq> PUPPETEER))"
  by (auto simp: getOrCreateBandwidthTracker_def attachCdpClient_def
      split: option.splits sum.splits)

theorem C10_absent_page_no_tracker_witness:
  "getOrCreateBandwidthTracker None None ''s1'' (None :: nat option) PLAYWRIGHT Map.empty
     = (Inr None, Map.empty)
   \<and> fst (getOrCreateBandwidthTracker None None ''s1'' (None :: nat option) PUPPETEER Map.empty)
     = Inr None
   \<and> fst (getOrCreateBandwidthTracker None None ''s1'' (Some (7::nat)) PLAYWRIGHT Map.empty)
     \<noteq> Inr None"
  using C10_absent_page_no_tracker [of None None "''s1''" PLAYWRIGHT "Map.empty :: nat \<rightharpoonup> tracker" "None"]
    C10_absent_page_no_tracker [of None None "''s1''" PUPPETEER "Map.empty :: nat \<rightharpoonup> tracker" "None"]
    C10_absent_page_no_tracker [of None None "''s1''" PLAYWRIGHT "Map.empty :: nat \<rightharpoonup> tracker" "Some 7"]
  by simp

section \<open>One request, one metric\<close>

lemma metricId_truthy: "truthy (Some (metricIdOf sid requestId k))"
  by (simp add: truthy_def metricIdOf_def)

lemma initiation_opens:
  assumes "truthy (currentJobId t)"
  shows "\<exists>t'. handle now (RequestWillBeSent requestId False request) t = (t', [])
           \<and> hopOpen requestId (firstHop requestId t) now t t'"
  using assms
  by (simp add: hopOpen_def firstHop_def nextHopIndex_def Let_def split: option.splits)

lemma progress_keeps:
  assumes "hopOpen requestId k since t0 t" and "progress ev"
  shows "\<exists>t'. handle now ev t = (t', []) \<and> hopOpen requestId k since t0 t'"
proof (cases ev)
  case (RequestWillBeSentExtraInfo r' headersText)
  then show ?thesis
    using assms(1)
    by (auto simp: hopOpen_def Let_def split: option.splits)
next
  case (ResponseReceived r' response)
  then show ?thesis
    using assms(1)
    by (auto simp: hopOpen_def Let_def split: option.splits)
next
  case (DataReceived r' encodedDataLength)
  then show ?thesis
    using assms(1)
    by (auto simp: hopOpen_def Let_def split: option.splits)
qed (use assms(2) in simp_all)

lemma progress_keeps_all:
  assumes "hopOpen requestId k since t0 t" and "list_all (\<lambda>e. progress (snd e)) evs"
  shows "\<exists>t'. handleAll evs t = (t', []) \<and> hopOpen requestId k since t0 t'"
  using assms
proof (induction evs arbitrary: t)
  case Nil
  then show ?case by simp
next
  case (Cons e evs)
  obtain now ev where e: "e = (now, ev)" by (cases e)
  with Cons.prems have "progress ev" by simp
  from progress_keeps [OF Cons.prems(1) this, of now]
  obtain t1 where t1: "handle now ev t = (t1, [])" "hopOpen requestId k since t0 t1"
    by blast
  from Cons.IH [OF t1(2)] Cons.prems(2)
  obtain t2 where "handleAll evs t1 = (t2, [])" "hopOpen requestId k since t0 t2"
    by auto
  then show ?case using e t1(1) by simp
qed

lemma redirect_finalizes:
  assumes "hopOpen requestId k since t0 t"
  shows "\<exists>t' metric. handle now (RequestWillBeSent requestId True request) t = (t', [metric])
           \<and> hopDone requestId k since now t0 metric
           \<and> hopOpen requestId (Suc k) now t0 t'"
  using assms
  by (auto simp: hopOpen_def hopDone_def nextHopIndex_def finalizeHop_def metricId_truthy Let_def
      split: option.splits)

lemma finish_finalizes:
  assumes "hopOpen requestId k since t0 t"
  shows "\<exists>t' metric. handle now (LoadingFinished requestId n) t = (t', [metric])
           \<and> hopDone requestId k since now t0 metric"
  using assms
  by (auto simp: hopOpen_def hopDone_def finalizeHop_def metricId_truthy Let_def
      split: option.splits)

lemma handleAll_append:
  "handleAll (xs @ ys) t =
     (fst (handleAll ys (fst (handleAll xs t))),
      snd (handleAll xs t) @ snd (handleAll ys (fst (handleAll xs t))))"
  by (induction xs arbitrary: t) (auto simp: Let_def split: prod.splits)

lemma handleAll_then:
  "handleAll xs t = (t1, out1) \<Longrightarrow> handleAll ys t1 = (t2, out2) \<Longrightarrow>
     handleAll (xs @ ys) t = (t2, out1 @ out2)"
  by (simp add: handleAll_append del: handle.simps)

lemma handle_then:
  "handle now ev t = (t1, out1) \<Longrightarrow> handleAll ys t1 = (t2, out2) \<Longrightarrow>
     handleAll ((now, ev) # ys) t = (t2, out1 @ out2)"
  by (simp del: handle.simps)

lemma recordAll_append: "recordAll (xs @ ys) bm = recordAll ys (recordAll xs bm)"
  by (induction xs arbitrary: bm) simp_all

lemma dispatchAll_handleAll:
  "dispatchAll evs (t, bm) = (fst (handleAll evs t), recordAll (snd (handleAll evs t)) bm)"
  by (induction evs arbitrary: t bm)
     (auto simp: dispatch_def recordAll_append Let_def split: prod.splits)

lemma finalizeHop_emits:
  "finalizeHop metricId failedFlag now t = (t', out) \<Longrightarrow> metric \<in> set out \<Longrightarrow>
     RequestTrafficMetric.totalBytes metric
       = RequestTrafficMetric.requestBytes metric + RequestTrafficMetric.responseBytes metric
     \<and> endTime metric = Some now \<and> failed metric = Some failedFlag"
  by (auto simp: finalizeHop_def Let_def split: option.splits if_splits)

lemma handle_emits:
  "metric \<in> set (snd (handle now ev t)) \<Longrightarrow>
     RequestTrafficMetric.totalBytes metric
       = RequestTrafficMetric.requestBytes metric + RequestTrafficMetric.responseBytes metric
     \<and> endTime metric = Some now"
proof (cases ev)
  case (RequestWillBeSent requestId redirectResponse request)
  assume "metric \<in> set (snd (handle now ev t))"
  then show ?thesis
    using RequestWillBeSent
    by (auto simp: Let_def nextHopIndex_def split: if_splits prod.splits
        dest: finalizeHop_emits)
next
  case (LoadingFinished requestId encodedDataLength)
  assume "metric \<in> set (snd (handle now ev t))"
  then show ?thesis
    using LoadingFinished
    by (auto simp: Let_def split: prod.splits dest: finalizeHop_emits)
next
  case (LoadingFailed requestId)
  assume "metric \<in> set (snd (handle now ev t))"
  then show ?thesis
    using LoadingFailed
    by (auto simp: Let_def split: prod.splits dest: finalizeHop_emits)
qed (auto simp: Let_def split: option.splits if_splits)

lemma handleAll_emits:
  "metric \<in> set (snd (handleAll evs t)) \<Longrightarrow>
     RequestTrafficMetric.totalBytes metric
       = RequestTrafficMetric.requestBytes metric + RequestTrafficMetric.responseBytes metric
     \<and> endTime metric \<in> Some ` fst ` set evs"
proof (induction evs arbitrary: t)
  case Nil
  then show ?case by simp
next
  case (Cons e evs)
  obtain now ev where e: "e = (now, ev)" by (cases e)
  from Cons.prems e
  consider "metric \<in> set (snd (handle now ev t))"
    | "metric \<in> set (snd (handleAll evs (fst (handle now ev t))))"
    by (auto simp: Let_def split: prod.splits)
  then show ?case
  proof cases
    case 1
    from handle_emits [OF this] show ?thesis using e by simp
  next
    case 2
    from Cons.IH [OF this] show ?thesis by auto
  qed
qed

text \<open>
  C4. On a tracker with a job context, the events of one request that is not
  redirected and completes (its initiation, then any header-detail, response and
  data events, then loading-finished) finalize exactly one metric, and the
  manager's \<^verbatim>\<open>recordRequest\<close> receives it once. The metric has the id of the hop
  that \<^verbatim>\<open>nextHopIndex\<close> handed out, the job of the context, the start time of the
  initiation, the end time of the loading-finished event, \<open>failed = false\<close> and
  \<open>totalBytes = requestBytes + responseBytes\<close>. And whatever the events and the
  tracker, every metric finalized has \<open>totalBytes = requestBytes + responseBytes\<close>
  and as \<open>endTime\<close> the clock of one of the events.
\<close>

theorem C4_single_request_exactly_once:
  "(truthy (currentJobId t) \<and> list_all (\<lambda>e. progress (snd e)) mid \<longrightarrow>
      (\<exists>t' metric.
         handleAll ((start, RequestWillBeSent requestId False request) # mid
                    @ [(finish, LoadingFinished requestId n)]) t = (t', [metric])
         \<and> dispatchAll ((start, RequestWillBeSent requestId False request) # mid
                    @ [(finish, LoadingFinished requestId n)]) (t, bandwidthManager)
             = (t', recordRequest metric bandwidthManager)
         \<and> id_metric metric = metricIdOf (sessionId t) requestId (firstHop requestId t)
         \<and> jobId metric = currentJobId t
         \<and> startTime metric = start
         \<and> endTime metric = Some finish
         \<and> failed metric = Some False
         \<and> RequestTrafficMetric.totalBytes metric
             = RequestTrafficMetric.requestBytes metric
               + RequestTrafficMetric.responseBytes metric))
   \<and> (\<forall>metric \<in> set (snd (handleAll evs t)).
         RequestTrafficMetric.totalBytes metric
           = RequestTrafficMetric.requestBytes metric + RequestTrafficMetric.responseBytes metric
         \<and> endTime metric \<in> Some ` fst ` set evs)"
proof (rule conjI, rule impI)
  assume a: "truthy (currentJobId t) \<and> list_all (\<lambda>e. progress (snd e)) mid"
  let ?k = "firstHop requestId t"
  let ?evs = "(start, RequestWillBeSent requestId False request) # mid
                    @ [(finish, LoadingFinished requestId n)]"
  from initiation_opens [of t start requestId request] a
  obtain t1 where t1: "handle start (RequestWillBeSent requestId False request) t = (t1, [])"
    "hopOpen requestId ?k start t t1" by blast
  from progress_keeps_all [OF t1(2), of mid] a
  obtain t2 where t2: "handleAll mid t1 = (t2, [])" "hopOpen requestId ?k start t t2" by blast
  from finish_finalizes [OF t2(2), of finish n]
  obtain t3 metric where t3: "handle finish (LoadingFinished requestId n) t2 = (t3, [metric])"
    "hopDone requestId ?k start finish t metric" by blast
  have run: "handleAll ?evs t = (t3, [metric])"
    using handle_then [OF t1(1) handleAll_then [OF t2(1) handle_then [OF t3(1), of "[]"]]]
    by (simp del: handle.simps)
  moreover have "dispatchAll ?evs (t, bandwidthManager) = (t3, recordRequest metric bandwidthManager)"
    unfolding dispatchAll_handleAll run by simp
  ultimately show "\<exists>t' metric.
         handleAll ?evs t = (t', [metric])
         \<and> dispatchAll ?evs (t, bandwidthManager) = (t', recordRequest metric bandwidthManager)
         \<and> id_metric metric = metricIdOf (sessionId t) requestId (firstHop requestId t)
         \<and> jobId metric = currentJobId t
         \<and> startTime metric = start
         \<and> endTime metric = Some finish
         \<and> failed metric = Some False
         \<and> RequestTrafficMetric.totalBytes metric
             = RequestTrafficMetric.requestBytes metric
               + RequestTrafficMetric.responseBytes metric"
    using t3(2) unfolding hopDone_def by blast
next
  show "\<forall>metric \<in> set (snd (handleAll evs t)).
         RequestTrafficMetric.totalBytes metric
           = RequestTrafficMetric.requestBytes metric + RequestTrafficMetric.responseBytes metric
         \<and> endTime metric \<in> Some ` fst ` set evs"
    using handleAll_emits [of _ evs t] by blast
qed

theorem C4_single_request_exactly_once_witness:
  "truthy (currentJobId readyTracker)
   \<and> list_all (\<lambda>e. progress (snd e)) [(2, DataReceived ''1'' (Some 500))]
   \<and> (\<exists>t' metric.
         handleAll [(1, RequestWillBeSent ''1'' False None), (2, DataReceived ''1'' (Some 500)),
                    (3, LoadingFinished ''1'' None)] readyTracker = (t', [metric])
         \<and> dispatchAll [(1, RequestWillBeSent ''1'' False None), (2, DataReceived ''1'' (Some 500)),
                    (3, LoadingFinished ''1'' None)] (readyTracker, newBandwidthManager)
             = (t', recordRequest metric newBandwidthManager)
         \<and> id_metric metric = metricIdOf (sessionId readyTracker) ''1'' (firstHop ''1'' readyTracker)
         \<and> jobId metric = currentJobId readyTracker
         \<and> startTime metric = 1
         \<and> endTime metric = Some 3
         \<and> failed metric = Some False
         \<and> RequestTrafficMetric.totalBytes metric
             = RequestTrafficMetric.requestBytes metric
               + RequestTrafficMetric.responseBytes metric)
   \<and> pendingByJobId (snd (dispatchAll
         [(1, RequestWillBeSent ''1'' False None), (2, DataReceived ''1'' (Some 500)),
          (3, LoadingFinished ''1'' None)] (readyTracker, newBandwidthManager)))
       = [(''J1'', \<lparr>totalBytes = 517, requestBytes = 17, responseBytes = 500, requestCount = 1\<rparr>)]"
proof -
  have h: "truthy (currentJobId readyTracker)
      \<and> list_all (\<lambda>e. progress (snd e)) [(2, DataReceived ''1'' (Some 500))]"
    by (simp add: readyTracker_def setJobContext_def truthy_def)
  have e: "pendingByJobId (snd (dispatchAll
         [(1, RequestWillBeSent ''1'' False None), (2, DataReceived ''1'' (Some 500)),
          (3, LoadingFinished ''1'' None)] (readyTracker, newBandwidthManager)))
       = [(''J1'', \<lparr>totalBytes = 517, requestBytes = 17, responseBytes = 500, requestCount = 1\<rparr>)]"
    by (simp add: dispatch_def readyTracker_def setJobContext_def newTracker_def truthy_def
        nextHopIndex_def metricIdOf_def digits.simps finalizeHop_def estimateRequestBytes_def
        crlf_def recordRequest_def newBandwidthManager_def createEmptyDelta_def Let_def)
  show ?thesis
    using h e
      mp [OF conjunct1 [OF C4_single_request_exactly_once
            [of readyTracker "[(2, DataReceived ''1'' (Some 500))]" 1 "''1''" None 3 None
               newBandwidthManager]] h]
    by simp
qed

section \<open>Redirect chains\<close>

lemma digit_inj:
  "a < 10 \<Longrightarrow> b < 10 \<Longrightarrow> ''0123456789'' ! a = ''0123456789'' ! b \<Longrightarrow> a = b"
  using nth_eq_iff_index_eq [of "''0123456789''" a b] by simp

lemma digits_nonempty: "digits n \<noteq> []"
  by (subst digits.simps) simp

lemma digits_single: "length (digits n) = Suc 0 \<longleftrightarrow> n < 10"
proof (cases "n < 10")
  case True
  then show ?thesis by (subst digits.simps) simp
next
  case False
  have "digits (n div 10) \<noteq> []" by (rule digits_nonempty)
  then have "length (digits (n div 10)) \<noteq> 0" by simp
  then show ?thesis using False by (subst digits.simps) simp
qed

lemma digits_inj: "digits m = digits n \<Longrightarrow> m = n"
proof (induction m arbitrary: n rule: digits.induct)
  case (1 m)
  show ?case
  proof (cases "m < 10")
    case True
    then have "length (digits n) = Suc 0"
      using "1.prems" digits_single [of m] by simp
    then have n: "n < 10" by (simp add: digits_single)
    have "digits m = [''0123456789'' ! m]" "digits n = [''0123456789'' ! n]"
      using True n by (simp_all add: digits.simps [of m] digits.simps [of n] del: nth_Cons_numeral)
    then show ?thesis using "1.prems" True n digit_inj by simp
  next
    case False
    then have "length (digits n) \<noteq> Suc 0"
      using "1.prems" digits_single [of m] by simp
    then have n: "\<not> n < 10" by (simp add: digits_single)
    have m': "digits m = digits (m div 10) @ [''0123456789'' ! (m mod 10)]"
      using False by (subst digits.simps) simp
    have n': "digits n = digits (n div 10) @ [''0123456789'' ! (n mod 10)]"
      using n by (subst digits.simps) simp
    from "1.prems" m' n'
    have front: "digits (m div 10) = digits (n div 10)"
      and rear: "''0123456789'' ! (m mod 10) = ''0123456789'' ! (n mod 10)"
      by simp_all
    from "1.IH" [OF False front] have "m div 10 = n div 10" .
    moreover from rear have "m mod 10 = n mod 10"
      by (intro digit_inj) simp_all
    ultimately show ?thesis
      by (metis div_mult_mod_eq)
  qed
qed

lemma metricIdOf_inj: "metricIdOf sid requestId j = metricIdOf sid requestId k \<longleftrightarrow> j = k"
  by (auto simp: metricIdOf_def dest: digits_inj)

text \<open>The chain after its first initiation, up to the loading-finished event.\<close>

lemma redirects_run:
  assumes "hopOpen requestId k since t0 t"
    and "list_all (\<lambda>h. list_all (\<lambda>e. progress (snd e)) (snd (snd h))) hops"
  shows "\<exists>t' out. handleAll (redirects requestId hops @ [(finish, LoadingFinished requestId n)]) t
                     = (t', out)
           \<and> map id_metric out = map (metricIdOf (sessionId t0) requestId) [k ..< Suc (k + length hops)]
           \<and> list_all (\<lambda>metric. failed metric = Some False) out
           \<and> list_all (\<lambda>metric. jobId metric = currentJobId t0) out
           \<and> map startTime out = since # map fst hops
           \<and> map endTime out = map Some (map fst hops @ [finish])"
  using assms
proof (induction hops arbitrary: k since t)
  case Nil
  from finish_finalizes [OF Nil.prems(1), of finish n]
  obtain t' metric where "handle finish (LoadingFinished requestId n) t = (t', [metric])"
    "hopDone requestId k since finish t0 metric" by blast
  then show ?case
    using handle_then [of finish "LoadingFinished requestId n" t t' "[metric]" "[]" t' "[]"]
    by (simp add: hopDone_def del: handle.simps)
next
  case (Cons h hops)
  obtain now request mid where h: "h = (now, request, mid)" by (cases h)
  from redirect_finalizes [OF Cons.prems(1), of now request]
  obtain t1 metric where t1: "handle now (RequestWillBeSent requestId True request) t = (t1, [metric])"
    "hopDone requestId k since now t0 metric" "hopOpen requestId (Suc k) now t0 t1" by blast
  have "list_all (\<lambda>e. progress (snd e)) mid" using Cons.prems(2) h by simp
  from progress_keeps_all [OF t1(3) this]
  obtain t2 where t2: "handleAll mid t1 = (t2, [])" "hopOpen requestId (Suc k) now t0 t2" by blast
  have "list_all (\<lambda>h. list_all (\<lambda>e. progress (snd e)) (snd (snd h))) hops"
    using Cons.prems(2) by simp
  from Cons.IH [OF t2(2) this]
  obtain t3 out where t3:
    "handleAll (redirects requestId hops @ [(finish, LoadingFinished requestId n)]) t2 = (t3, out)"
    "map id_metric out = map (metricIdOf (sessionId t0) requestId) [Suc k ..< Suc (Suc k + length hops)]"
    "list_all (\<lambda>metric. failed metric = Some False) out"
    "list_all (\<lambda>metric. jobId metric = currentJobId t0) out"
    "map startTime out = now # map fst hops"
    "map endTime out = map Some (map fst hops @ [finish])" by (elim exE conjE) (rule that)
  have run: "handleAll (redirects requestId (h # hops) @ [(finish, LoadingFinished requestId n)]) t
              = (t3, metric # out)"
    using handle_then [OF t1(1) handleAll_then [OF t2(1) t3(1)]]
    by (simp add: h del: handle.simps)
  have "[k ..< Suc (k + length (h # hops))] = k # [Suc k ..< Suc (Suc k + length hops)]"
    by (subst upt_conv_Cons) simp_all
  then show ?case
    using run t1(2) t3(2-6) h by (simp add: hopDone_def del: handle.simps upt_Suc)
qed

text \<open>
  C5. On a tracker with a job context, a chain of \<open>N\<close> redirects on one transport
  id (the list \<open>hops\<close>, each an initiation that carries the prior response and
  the events that follow it) ended by loading-finished finalizes exactly \<open>N + 1\<close>
  metrics. Their ids are those of the consecutive hop indices starting at the
  next index of the transport id, so they are distinct and increasing; none is
  failed; and the metric of each hop ends at the clock of the initiation event
  of the next hop, which is the start time of the next hop's metric (the last
  one ends at the loading-finished event).
\<close>

theorem C5_redirect_chain:
  "truthy (currentJobId t) \<and> list_all (\<lambda>e. progress (snd e)) (snd (snd first))
     \<and> list_all (\<lambda>h. list_all (\<lambda>e. progress (snd e)) (snd (snd h))) hops \<longrightarrow>
   (\<exists>t' out.
      handleAll (chain requestId first hops finish n) t = (t', out)
      \<and> length out = length hops + 1
      \<and> map id_metric out
          = map (metricIdOf (sessionId t) requestId)
              [firstHop requestId t ..< firstHop requestId t + length hops + 1]
      \<and> distinct (map id_metric out)
      \<and> list_all (\<lambda>metric. failed metric = Some False) out
      \<and> list_all (\<lambda>metric. jobId metric = currentJobId t) out
      \<and> map startTime out = fst first # map fst hops
      \<and> map endTime out = map Some (map fst hops @ [finish]))"
proof (rule impI)
  assume a: "truthy (currentJobId t) \<and> list_all (\<lambda>e. progress (snd e)) (snd (snd first))
     \<and> list_all (\<lambda>h. list_all (\<lambda>e. progress (snd e)) (snd (snd h))) hops"
  let ?k = "firstHop requestId t"
  obtain start request mid where first: "first = (start, request, mid)" by (cases first)
  from initiation_opens [of t start requestId request] a
  obtain t1 where t1: "handle start (RequestWillBeSent requestId False request) t = (t1, [])"
    "hopOpen requestId ?k start t t1" by blast
  have "list_all (\<lambda>e. progress (snd e)) mid" using a first by simp
  from progress_keeps_all [OF t1(2) this]
  obtain t2 where t2: "handleAll mid t1 = (t2, [])" "hopOpen requestId ?k start t t2" by blast
  have "list_all (\<lambda>h. list_all (\<lambda>e. progress (snd e)) (snd (snd h))) hops"
    using a by simp
  from redirects_run [OF t2(2) this, of finish n]
  obtain t3 out where t3:
    "handleAll (redirects requestId hops @ [(finish, LoadingFinished requestId n)]) t2 = (t3, out)"
    "map id_metric out = map (metricIdOf (sessionId t) requestId) [?k ..< Suc (?k + length hops)]"
    "list_all (\<lambda>metric. failed metric = Some False) out"
    "list_all (\<lambda>metric. jobId metric = currentJobId t) out"
    "map startTime out = start # map fst hops"
    "map endTime out = map Some (map fst hops @ [finish])" by (elim exE conjE) (rule that)
  have run: "handleAll (chain requestId first hops finish n) t = (t3, out)"
    using handle_then [OF t1(1) handleAll_then [OF t2(1) t3(1)]]
    by (simp add: chain_def first del: handle.simps)
  have len: "length out = length hops + 1"
    using arg_cong [OF t3(2), of length] by simp
  have "inj_on (metricIdOf (sessionId t) requestId) (set [?k ..< Suc (?k + length hops)])"
    by (rule inj_onI) (simp add: metricIdOf_inj)
  then have dist: "distinct (map id_metric out)"
    unfolding t3(2) by (simp add: distinct_map)
  show "\<exists>t' out.
      handleAll (chain requestId first hops finish n) t = (t', out)
      \<and> length out = length hops + 1
      \<and> map id_metric out
          = map (metricIdOf (sessionId t) requestId)
              [firstHop requestId t ..< firstHop requestId t + length hops + 1]
      \<and> distinct (map id_metric out)
      \<and> list_all (\<lambda>metric. failed metric = Some False) out
      \<and> list_all (\<lambda>metric. jobId metric = currentJobId t) out
      \<and> map startTime out = fst first # map fst hops
      \<and> map endTime out = map Some (map fst hops @ [finish])"
    using run len dist t3(2-6) first by simp
qed

theorem C5_redirect_chain_witness:
  "truthy (currentJobId readyTracker)
   \<and> (\<exists>t' out.
      handleAll (chain ''1'' (1, None, []) [(2, None, [(3, DataReceived ''1'' (Some 40))])] 4 None)
        readyTracker = (t', out)
      \<and> length out = 2
      \<and> map id_metric out = [''s1:1:0'', ''s1:1:1'']
      \<and> distinct (map id_metric out)
      \<and> list_all (\<lambda>metric. failed metric = Some False) out
      \<and> map startTime out = [1, 2]
      \<and> map endTime out = [Some 2, Some 4])"
proof -
  have h: "truthy (currentJobId readyTracker)
     \<and> list_all (\<lambda>e. progress (snd e)) (snd (snd (1, None :: CdpRequest option, [])))
     \<and> list_all (\<lambda>h. list_all (\<lambda>e. progress (snd e)) (snd (snd h)))
          [(2, None :: CdpRequest option, [(3, DataReceived ''1'' (Some 40))])]"
    by (simp add: readyTracker_def setJobContext_def truthy_def)
  have ids: "map (metricIdOf (sessionId readyTracker) ''1'')
               [firstHop ''1'' readyTracker ..< firstHop ''1'' readyTracker + 2]
             = [''s1:1:0'', ''s1:1:1'']"
    by (simp add: readyTracker_def setJobContext_def newTracker_def firstHop_def metricIdOf_def
        digits.simps upt_rec)
  show ?thesis
    using h ids
      mp [OF C5_redirect_chain
            [of readyTracker "(1, None, [])" "[(2, None, [(3, DataReceived ''1'' (Some 40))])]"
               "''1''" 4 None] h]
    by (auto simp del: handle.simps)
qed

section \<open>Interleaved runs of the manager\<close>

subsection \<open>Lists of deltas\<close>




lemma sumDeltas_Nil [simp]: "sumDeltas [] = createEmptyDelta"
  by (simp add: sumDeltas_def createEmptyDelta_def)

lemma sumDeltas_Cons [simp]: "sumDeltas (d # ds) = addDelta d (sumDeltas ds)"
  by (simp add: sumDeltas_def addDelta_def)

lemma sumDeltas_append [simp]: "sumDeltas (xs @ ys) = addDelta (sumDeltas xs) (sumDeltas ys)"
  by (induction xs) (simp_all add: addDelta_assoc)





lemma map_of_list_all:
  "list_all P al \<Longrightarrow> map_of al k = Some v \<Longrightarrow> P (k, v)"
  by (auto simp: list_all_iff dest: map_of_SomeD)



lemma started_positive:
  "list_all (\<lambda>e. 0 < totalBytes (snd e)) entries \<Longrightarrow>
     started c entries = map (\<lambda>e. (c, fst e, snd e)) entries"
  by (induction entries) (auto simp: started_def)


subsection \<open>The invariant\<close>






subsection \<open>The ledger\<close>









subsection \<open>Signs\<close>













subsection \<open>Retry\<close>


lemma run_append:
  "run (xs @ ys) s = (case run xs s of None \<Rightarrow> None | Some s1 \<Rightarrow> run ys s1)"
  by (induction xs arbitrary: s) (auto split: option.splits)


lemma recorded_records: "recorded (map RecordRequest ms) = ms"
  by (induction ms) simp_all











subsection \<open>The two views of a flush agree\<close>

text \<open>
  With the store as the list of writes, a flush run on its own with a
  collaborator that accepts every write, or fails every call, is the interleaved
  run in which the calls in flight succeed, or fail, one after the other.
\<close>

lemma persistEach_writes:
  "list_all (\<lambda>e. 0 < totalBytes (snd e)) entries \<Longrightarrow>
     persistEach writes entries (this, db) = (None, this, db @ entries)"
proof (induction entries arbitrary: db)
  case Nil
  show ?case by simp
next
  case (Cons e entries)
  obtain j d where e: "e = (j, d)" by (cases e)
  have "persist writes j d (this, db) = (None, this, db @ [(j, d)])"
    using Cons.prems e by (cases d) (simp add: persist_def writes_def)
  then show ?case using Cons e by simp
qed

lemma resolve_all:
  "run (replicate (length cs) (Resolve 0)) (s\<lparr>inflight := cs\<rparr>)
     = Some (s\<lparr>inflight := [], persisted := persisted s @ map snd cs\<rparr>)"
proof (induction cs arbitrary: s)
  case Nil
  show ?case by simp
next
  case (Cons c cs)
  have "step (Resolve 0) (s\<lparr>inflight := c # cs\<rparr>)
          = Some ((s\<lparr>persisted := persisted s @ [snd c]\<rparr>)\<lparr>inflight := cs\<rparr>)"
    by (simp add: settle_def)
  then show ?case
    using Cons [of "s\<lparr>persisted := persisted s @ [snd c]\<rparr>"] by simp
qed

lemma persist_catch_flushRunning:
  "flushRunning (foldl (\<lambda>m e. persist_catch (fst e) (snd e) m) this entries) = flushRunning this"
  by (induction entries arbitrary: this) (simp_all add: persist_catch_def Let_def)

lemma persistEach_refuses:
  "list_all (\<lambda>e. 0 < totalBytes (snd e)) entries \<Longrightarrow>
     persistEach refuses entries (this, db)
       = (None, foldl (\<lambda>m e. persist_catch (fst e) (snd e) m) this entries, db)"
proof (induction entries arbitrary: this)
  case Nil
  show ?case by simp
next
  case (Cons e entries)
  obtain j d where e: "e = (j, d)" by (cases e)
  have "persist refuses j d (this, db) = (None, persist_catch j d this, db)"
    using Cons.prems e by (simp add: persist_def refuses_def)
  then show ?case using Cons e by simp
qed

lemma reject_all:
  "run (replicate (length cs) (Reject 0 err)) (s\<lparr>inflight := cs\<rparr>)
     = Some (s\<lparr>inflight := [],
               manager := foldl (\<lambda>m c. persist_catch (fst (snd c)) (snd (snd c)) m)
                            (manager s) cs\<rparr>)"
proof (induction cs arbitrary: s)
  case Nil
  show ?case by simp
next
  case (Cons c cs)
  have "step (Reject 0 err) (s\<lparr>inflight := c # cs\<rparr>)
          = Some ((s\<lparr>manager := persist_catch (fst (snd c)) (snd (snd c)) (manager s)\<rparr>)
                    \<lparr>inflight := cs\<rparr>)"
    by (simp add: settle_def)
  then show ?case
    using Cons [of "s\<lparr>manager := persist_catch (fst (snd c)) (snd (snd c)) (manager s)\<rparr>"]
    by simp
qed

lemma flushAll_views_agree:
  assumes "positive s" and "inflight s = []"
    and "\<not> flushRunning (manager s)" and "pendingByJobId (manager s) \<noteq> []"
  shows "\<exists>s'. run (FlushAll # replicate (length (pendingByJobId (manager s))) (Resolve 0)
                    @ [FlushAllDone]) s = Some s'
              \<and> flushAll writes (manager s, persisted s) = (None, manager s', persisted s')"
    and "\<exists>s'. run (FlushAll # replicate (length (pendingByJobId (manager s))) (Reject 0 err)
                    @ [FlushAllDone]) s = Some s'
              \<and> flushAll refuses (manager s, persisted s) = (None, manager s', persisted s')"
proof -
  let ?p = "pendingByJobId (manager s)"
  define cs where "cs = map (\<lambda>e. (ByFlushAll, fst e, snd e)) ?p"
  define s1 where "s1 = s\<lparr>manager := (manager s)\<lparr>flushRunning := True, pendingByJobId := []\<rparr>\<rparr>"
  define merged where "merged = foldl (\<lambda>m e. persist_catch (fst e) (snd e) m) (manager s1) ?p"
  have pos: "list_all (\<lambda>e. 0 < totalBytes (snd e)) ?p"
    using assms(1) by (simp add: positive_def)
  have first: "step FlushAll s = Some (s1\<lparr>inflight := cs\<rparr>)"
    using assms(2-4) started_positive [OF pos, of ByFlushAll] by (simp add: cs_def s1_def)
  have len: "length cs = length ?p" by (simp add: cs_def)
  have snds: "map snd cs = ?p" by (simp add: cs_def comp_def)
  have folds: "foldl (\<lambda>m c. persist_catch (fst (snd c)) (snd (snd c)) m) (manager s1) cs = merged"
    by (simp add: cs_def merged_def foldl_map)
  have r1: "run (replicate (length ?p) (Resolve 0)) (s1\<lparr>inflight := cs\<rparr>)
              = Some (s1\<lparr>inflight := [], persisted := persisted s1 @ ?p\<rparr>)"
    using resolve_all [of cs s1] unfolding len snds .
  have r2: "run (replicate (length ?p) (Reject 0 err)) (s1\<lparr>inflight := cs\<rparr>)
              = Some (s1\<lparr>inflight := [], manager := merged\<rparr>)"
    using reject_all [of cs err s1] unfolding len folds .
  have d1: "step FlushAllDone (s1\<lparr>inflight := [], persisted := persisted s1 @ ?p\<rparr>)
              = Some (s1\<lparr>inflight := [], persisted := persisted s1 @ ?p,
                        manager := (manager s1)\<lparr>flushRunning := False\<rparr>\<rparr>)"
    by (simp add: s1_def)
  have d2: "step FlushAllDone (s1\<lparr>inflight := [], manager := merged\<rparr>)
              = Some (s1\<lparr>inflight := [], manager := merged\<lparr>flushRunning := False\<rparr>\<rparr>)"
    by (simp add: merged_def s1_def persist_catch_flushRunning)
  have w: "flushAll writes (manager s, persisted s)
             = (None, (manager s1)\<lparr>flushRunning := False\<rparr>, persisted s1 @ ?p)"
    using assms(3,4) persistEach_writes [OF pos] by (simp add: flushAll_def Let_def s1_def)
  have f: "flushAll refuses (manager s, persisted s)
             = (None, merged\<lparr>flushRunning := False\<rparr>, persisted s1)"
    using assms(3,4) persistEach_refuses [OF pos]
    by (simp add: flushAll_def Let_def s1_def merged_def)
  have "run (FlushAll # replicate (length ?p) (Resolve 0) @ [FlushAllDone]) s
          = Some (s1\<lparr>inflight := [], persisted := persisted s1 @ ?p,
                    manager := (manager s1)\<lparr>flushRunning := False\<rparr>\<rparr>)"
    by (simp add: run_append first r1 d1 del: step.simps)
  then show "\<exists>s'. run (FlushAll # replicate (length ?p) (Resolve 0) @ [FlushAllDone]) s = Some s'
              \<and> flushAll writes (manager s, persisted s) = (None, manager s', persisted s')"
    unfolding w by simp
  have "run (FlushAll # replicate (length ?p) (Reject 0 err) @ [FlushAllDone]) s
          = Some (s1\<lparr>inflight := [], manager := merged\<lparr>flushRunning := False\<rparr>\<rparr>)"
    by (simp add: run_append first r2 d2 del: step.simps)
  then show "\<exists>s'. run (FlushAll # replicate (length ?p) (Reject 0 err) @ [FlushAllDone]) s = Some s'
              \<and> flushAll refuses (manager s, persisted s) = (None, manager s', persisted s')"
    unfolding f by simp
qed

lemma flushJob_views_agree:
  assumes "positive s" and "inflight s = []"
    and "map_of (pendingByJobId (manager s)) j = Some delta"
  shows "\<exists>s'. run [FlushJob j, Resolve 0] s = Some s'
              \<and> flushJob writes j (manager s, persisted s) = (None, manager s', persisted s')"
    and "\<exists>s'. run [FlushJob j, Reject 0 err] s = Some s'
              \<and> flushJob refuses j (manager s, persisted s) = (None, manager s', persisted s')"
proof -
  have pos: "0 < totalBytes delta"
    using map_of_list_all [of "\<lambda>e. 0 < totalBytes (snd e)" "pendingByJobId (manager s)" j delta]
      assms(1,3) by (simp add: positive_def)
  show "\<exists>s'. run [FlushJob j, Resolve 0] s = Some s'
              \<and> flushJob writes j (manager s, persisted s) = (None, manager s', persisted s')"
    using assms(2,3) pos
    by (cases delta) (simp add: flushJob_def persist_def writes_def started_def settle_def)
  show "\<exists>s'. run [FlushJob j, Reject 0 err] s = Some s'
              \<and> flushJob refuses j (manager s, persisted s) = (None, manager s', persisted s')"
    using assms(2,3) pos
    by (simp add: flushJob_def persist_def refuses_def started_def settle_def)
qed

end
